theory Spec2Isabelle
  imports Complex_Main "HOL-Library.Sublist"
begin

section \<open>Python strings\<close>

text \<open>
  A Python \<open>str\<close> is a sequence of Unicode code points. It is modelled as a list of
  natural numbers, one per code point, so that \<open>length\<close> counts what Python's \<open>len\<close>
  counts and the dash U+2014 of the persona prompt is one element. \<open>lit\<close> turns an ASCII
  literal into such a list.
\<close>

type_synonym str = "nat list"

definition lit :: "string \<Rightarrow> str" where
  "lit s = map of_char s"

text \<open>
  The code points for which \<open>str.isspace\<close> holds; \<open>str.strip()\<close> and \<open>str.split()\<close>
  without arguments use this set.
\<close>

definition is_space :: "nat \<Rightarrow> bool" where
  "is_space c =
     ((9 \<le> c \<and> c \<le> 13) \<or> (28 \<le> c \<and> c \<le> 32) \<or> c = 133 \<or> c = 160 \<or> c = 5760
      \<or> (8192 \<le> c \<and> c \<le> 8202) \<or> c = 8232 \<or> c = 8233 \<or> c = 8239 \<or> c = 8287
      \<or> c = 12288)"

text \<open>\<open>s.strip()\<close>\<close>

definition strip :: "str \<Rightarrow> str" where
  "strip s = rev (dropWhile is_space (rev (dropWhile is_space s)))"

text \<open>
  \<open>s.split()\<close>: the maximal runs of non-whitespace, in order. \<open>cur\<close> is the token being
  read.
\<close>

fun split_from :: "str \<Rightarrow> str \<Rightarrow> str list" where
  "split_from cur [] = (if cur = [] then [] else [cur])"
| "split_from cur (c # cs) =
     (if is_space c then (if cur = [] then split_from [] cs else cur # split_from [] cs)
      else split_from (cur @ [c]) cs)"

definition split :: "str \<Rightarrow> str list" where
  "split s = split_from [] s"

text \<open>\<open>sep.join(xs)\<close>\<close>

fun join :: "str \<Rightarrow> str list \<Rightarrow> str" where
  "join sep [] = []"
| "join sep [x] = x"
| "join sep (x # y # ys) = x @ sep @ join sep (y # ys)"

text \<open>
  \<open>s.replace(old, new)\<close>: the non-overlapping occurrences of \<open>old\<close> are replaced from
  left to right. For an empty \<open>old\<close> Python puts \<open>new\<close> before every code point and at
  the end.
\<close>

fun replace_from :: "str \<Rightarrow> str \<Rightarrow> str \<Rightarrow> str" where
  "replace_from old new [] = []"
| "replace_from old new (c # cs) =
     (if prefix old (c # cs) then new @ replace_from old new (drop (length old - 1) cs)
      else c # replace_from old new cs)"

definition replace :: "str \<Rightarrow> str \<Rightarrow> str \<Rightarrow> str" where
  "replace old new s =
     (if old = [] then new @ concat (map (\<lambda>c. c # new) s) else replace_from old new s)"

text \<open>\<open>sub in s\<close>\<close>

fun contains :: "str \<Rightarrow> str \<Rightarrow> bool" where
  "contains sub [] = (sub = [])"
| "contains sub (c # cs) = (prefix sub (c # cs) \<or> contains sub cs)"

text \<open>
  \<open>html.unescape(s)\<close> of the standard library returns \<open>s\<close> itself when it holds no
  ampersand, and the result of its character-reference substitution otherwise. The
  substitution is a parameter of the model. It can raise: the conversion of a numeric
  character reference with too many digits raises \<open>ValueError\<close>. So the substitution
  yields an option, and \<open>None\<close> stands for the exception.
\<close>

definition html_unescape :: "(str \<Rightarrow> str option) \<Rightarrow> str \<Rightarrow> str option" where
  "html_unescape charref_sub s = (if 38 \<in> set s then charref_sub s else Some s)"

text \<open>The number of lines of a text: its pieces between line feeds.\<close>

definition line_count :: "str \<Rightarrow> nat" where
  "line_count s = Suc (length (filter (\<lambda>c. c = 10) s))"

section \<open>Response Extractor\<close>

text \<open>
  The response object is read with \<open>getattr\<close> and a default at every level, so every
  field may be absent (or \<open>None\<close>): each is an option.
\<close>

record part =
  part_text :: "str option"

record content =
  content_parts :: "part list option"

record candidate =
  cand_content :: "content option"
  cand_finish_reason :: "int option"

record response =
  resp_candidates :: "candidate list option"

text \<open>The inner loop over the parts of one content, appending to \<open>parts_out\<close>.\<close>

fun parts_loop :: "part list \<Rightarrow> str list \<Rightarrow> str list" where
  "parts_loop [] parts_out = parts_out"
| "parts_loop (p # ps) parts_out =
     (case part_text p of
        None \<Rightarrow> parts_loop ps parts_out
      | Some txt \<Rightarrow>
          if txt \<noteq> [] then parts_loop ps (parts_out @ [txt]) else parts_loop ps parts_out)"

text \<open>The outer loop over the candidates.\<close>

fun cands_loop :: "candidate list \<Rightarrow> str list \<Rightarrow> str list" where
  "cands_loop [] parts_out = parts_out"
| "cands_loop (cand # cs) parts_out =
     (case cand_content cand of
        None \<Rightarrow> cands_loop cs parts_out
      | Some c \<Rightarrow>
          cands_loop cs
            (parts_loop (case content_parts c of None \<Rightarrow> [] | Some ps \<Rightarrow> ps) parts_out))"

definition extract_text_from_response :: "response \<Rightarrow> str option" where
  "extract_text_from_response r =
     (let parts_out = cands_loop (case resp_candidates r of None \<Rightarrow> [] | Some cs \<Rightarrow> cs) []
      in if parts_out \<noteq> []
         then Some (join [10] (map strip (filter (\<lambda>p. strip p \<noteq> []) parts_out)))
         else None)"

section \<open>Local Fallback Generator\<close>

text \<open>The local \<open>p\<close>: the un-escaped prompt, trimmed.\<close>

definition fallback_p :: "str \<Rightarrow> str" where
  "fallback_p unescaped = strip unescaped"

text \<open>The local \<open>topic\<close>, with its default.\<close>

definition fallback_topic :: "str \<Rightarrow> str" where
  "fallback_topic p =
     (let topic = strip (replace (lit ''explain'') []
                    (replace (lit ''Explain'') [] (replace (lit ''pipeline of'') [] p)))
      in if topic = [] then lit ''this topic'' else topic)"

text \<open>The local \<open>lines\<close>, after the truncation for a short prompt.\<close>

definition fallback_lines :: "str \<Rightarrow> str list" where
  "fallback_lines p =
     (let lines =
        [lit ''In careful lines I study '' @ fallback_topic p @ lit '','',
         lit ''A generator dreams, a critic critiques;'',
         lit ''Adversarial rhythm tunes model feats,'',
         lit ''Yet metrics warn where shortcuts meet.'',
         lit ''Practical: validate with held-out sets,'',
         lit ''Audit samples, and record your bets.'']
      in if length (split p) \<le> 3 then take 4 lines else lines)"

text \<open>
  The function raises when \<open>html.unescape\<close> does (\<open>None\<close>), and returns the joined lines
  otherwise.
\<close>

definition local_poem_fallback :: "(str \<Rightarrow> str option) \<Rightarrow> str \<Rightarrow> str option" where
  "local_poem_fallback charref_sub prompt =
     (case html_unescape charref_sub prompt of
        None \<Rightarrow> None
      | Some unescaped \<Rightarrow> Some (join [10] (fallback_lines (fallback_p unescaped))))"

section \<open>Reply Controller\<close>

text \<open>
  The module constant \<open>KELLY_SYSTEM_PROMPT\<close>: a triple-quoted literal that starts and ends
  with a line feed and holds the dash U+2014 (code point 8212).
\<close>

definition KELLY_SYSTEM_PROMPT :: str where
  "KELLY_SYSTEM_PROMPT =
     [10] @ lit ''You are Kelly '' @ [8212]
     @ lit '' an analytical poet and scientist. Answer in the form of a short poem.'' @ [10]
     @ lit ''Style: skeptical, analytical, professional. Include one or two practical suggestions or steps.''
     @ [10]
     @ lit ''Keep lines concise and clear; avoid hype and be evidence-minded.'' @ [10]"

text \<open>The result's second component: the strings \<open>"gemini"\<close> and \<open>"fallback"\<close>.\<close>

datatype source = Gemini | Fallback

text \<open>
  What one call of \<open>generate_content\<close> is given: the model identifier, the list of
  contents, the generation configuration and the safety settings. The decimal literals
  are kept as written; no arithmetic is done on them.
\<close>

record request =
  req_model :: str
  req_contents :: "str list"
  temperature :: rat
  max_output_tokens :: int
  top_p :: rat
  safety_settings :: "(str \<times> str) list"

text \<open>
  The remote call either raises or returns a response. The service is a function of the
  number of calls made before and of the request.
\<close>

datatype outcome = Raises | Returns response

type_synonym remote = "nat \<Rightarrow> request \<Rightarrow> outcome"

text \<open>The effects of a run, in order: remote calls and sleeps (in seconds).\<close>

datatype event = Invoke request | Sleep rat

fun invocations :: "event list \<Rightarrow> request list" where
  "invocations [] = []"
| "invocations (Invoke r # es) = r # invocations es"
| "invocations (Sleep d # es) = invocations es"

record loop_state =
  attempt :: int
  log :: "event list"

definition base_prompt :: "str \<Rightarrow> str" where
  "base_prompt prompt =
     strip KELLY_SYSTEM_PROMPT @ [10, 10] @ lit ''User: '' @ prompt @ [10] @ lit ''Kelly:''"

definition model_attempts :: "str \<Rightarrow> str list" where
  "model_attempts model_name =
     (if \<not> contains (lit ''flash'') model_name
      then [model_name] @ [lit ''models/gemini-flash-latest'']
      else [model_name])"

definition paraphrases :: "(str \<Rightarrow> str) list" where
  "paraphrases =
     [\<lambda>q. q,
      \<lambda>q. q @ lit '' Please explain step by step and include practical suggestions.'',
      \<lambda>q. lit ''In scientific terms, describe the stages of: '' @ q]"

definition make_request :: "str \<Rightarrow> str \<Rightarrow> str \<Rightarrow> request" where
  "make_request mdl prompt q =
     \<lparr>req_model = mdl,
      req_contents = [replace prompt q (base_prompt prompt)],
      temperature = 0.45,
      max_output_tokens = 400,
      top_p = 0.9,
      safety_settings =
        [(lit ''HARM_CATEGORY_DANGEROUS_CONTENT'', lit ''BLOCK_NONE''),
         (lit ''HARM_CATEGORY_HATE_SPEECH'', lit ''BLOCK_NONE'')]\<rparr>"

text \<open>The local \<open>fr\<close>: the finish reason of the first candidate, when there is one.\<close>

definition first_finish_reason :: "response \<Rightarrow> int option" where
  "first_finish_reason r =
     (case resp_candidates r of
        None \<Rightarrow> None
      | Some [] \<Rightarrow> None
      | Some (c # cs) \<Rightarrow> cand_finish_reason c)"

text \<open>
  The body of the \<open>try\<close> statement for one model and one paraphrase, with its
  \<open>except\<close> clause: the call is logged, and the body either returns the reply
  (\<open>Some\<close>) or sleeps and continues with the next attempt (\<open>None\<close>).
\<close>

definition try_attempt ::
  "remote \<Rightarrow> str \<Rightarrow> str \<Rightarrow> (str \<Rightarrow> str) \<Rightarrow> event list \<Rightarrow> (str \<times> source) option \<times> event list"
where
  "try_attempt remote prompt mdl parap lg =
     (let q = parap prompt;
          req = make_request mdl prompt q;
          lg1 = lg @ [Invoke req]
      in case remote (length (invocations lg)) req of
           Raises \<Rightarrow> (None, lg1 @ [Sleep 0.6])
         | Returns response \<Rightarrow>
             (case extract_text_from_response response of
                Some (c # cs) \<Rightarrow> (Some (strip (c # cs), Gemini), lg1)
              | _ \<Rightarrow>
                  if first_finish_reason response = Some 2 then (None, lg1 @ [Sleep 0.6])
                  else (None, lg1 @ [Sleep 0.4])))"

text \<open>
  The inner loop over the paraphrases for one model. \<open>break\<close> leaves this loop only;
  the counter keeps its incremented value.
\<close>

fun inner_loop ::
  "remote \<Rightarrow> str \<Rightarrow> int \<Rightarrow> str \<Rightarrow> (str \<Rightarrow> str) list \<Rightarrow> loop_state
     \<Rightarrow> (str \<times> source) option \<times> loop_state"
where
  "inner_loop remote prompt max_retries mdl [] st = (None, st)"
| "inner_loop remote prompt max_retries mdl (parap # rest) st =
     (let st1 = st\<lparr>attempt := attempt st + 1\<rparr>
      in if attempt st1 > max_retries then (None, st1)
         else (case try_attempt remote prompt mdl parap (log st1) of
                 (Some result, lg) \<Rightarrow> (Some result, st1\<lparr>log := lg\<rparr>)
               | (None, lg) \<Rightarrow>
                   inner_loop remote prompt max_retries mdl rest (st1\<lparr>log := lg\<rparr>)))"

text \<open>The outer loop over the models.\<close>

fun outer_loop ::
  "remote \<Rightarrow> str \<Rightarrow> int \<Rightarrow> str list \<Rightarrow> loop_state \<Rightarrow> (str \<times> source) option \<times> loop_state"
where
  "outer_loop remote prompt max_retries [] st = (None, st)"
| "outer_loop remote prompt max_retries (mdl # rest) st =
     (case inner_loop remote prompt max_retries mdl paraphrases st of
        (Some result, st1) \<Rightarrow> (Some result, st1)
      | (None, st1) \<Rightarrow> outer_loop remote prompt max_retries rest st1)"

text \<open>
  \<open>kelly_reply\<close> returns the pair (text, source); the model returns the log of effects
  beside it. The call of \<open>local_poem_fallback\<close> is outside the \<open>try\<close> statement, so an
  exception of it leaves \<open>kelly_reply\<close>: the first component is then \<open>None\<close>.
\<close>

definition kelly_reply ::
  "(str \<Rightarrow> str option) \<Rightarrow> remote \<Rightarrow> str \<Rightarrow> str \<Rightarrow> int
     \<Rightarrow> (str \<times> source) option \<times> event list"
where
  "kelly_reply charref_sub remote prompt model_name max_retries =
     (case outer_loop remote prompt max_retries (model_attempts model_name)
             \<lparr>attempt = 0, log = []\<rparr> of
        (Some result, st) \<Rightarrow> (Some result, log st)
      | (None, st) \<Rightarrow>
          (case local_poem_fallback charref_sub prompt of
             None \<Rightarrow> (None, log st)
           | Some fallback_text \<Rightarrow> (Some (fallback_text, Fallback), log st)))"

section \<open>Vocabulary of the properties\<close>

text \<open>
  The texts of the parts of a response that have one, in the order of the candidates
  and, within a candidate, of its parts. An absent field contributes nothing.
\<close>

definition part_texts :: "response \<Rightarrow> str list" where
  "part_texts r =
     concat (map (\<lambda>cand. case cand_content cand of
                          None \<Rightarrow> []
                        | Some c \<Rightarrow>
                            concat (map (\<lambda>p. case part_text p of None \<Rightarrow> [] | Some t \<Rightarrow> [t])
                                      (case content_parts c of None \<Rightarrow> [] | Some ps \<Rightarrow> ps)))
               (case resp_candidates r of None \<Rightarrow> [] | Some cs \<Rightarrow> cs))"

text \<open>
  The text an attempt is answered with, when there is one: the remote call returned and
  the extracted text is a non-empty string.
\<close>

definition outcome_text :: "outcome \<Rightarrow> str option" where
  "outcome_text out =
     (case out of
        Raises \<Rightarrow> None
      | Returns r \<Rightarrow>
          (case extract_text_from_response r of Some (c # cs) \<Rightarrow> Some (c # cs) | _ \<Rightarrow> None))"

text \<open>
  The pairs of a model and a paraphrase that the two nested loops range over, in the
  order in which the loops reach them.
\<close>

definition attempts :: "str \<Rightarrow> (str \<times> (str \<Rightarrow> str)) list" where
  "attempts model_name = concat (map (\<lambda>m. map (Pair m) paraphrases) (model_attempts model_name))"

text \<open>One loop over a list of such pairs, without a counter.\<close>

fun run_attempts ::
  "remote \<Rightarrow> str \<Rightarrow> (str \<times> (str \<Rightarrow> str)) list \<Rightarrow> event list
     \<Rightarrow> (str \<times> source) option \<times> event list"
where
  "run_attempts remote prompt [] lg = (None, lg)"
| "run_attempts remote prompt ((mdl, parap) # rest) lg =
     (case try_attempt remote prompt mdl parap lg of
        (Some result, lg1) \<Rightarrow> (Some result, lg1)
      | (None, lg1) \<Rightarrow> run_attempts remote prompt rest lg1)"

text \<open>The request of a pair, and the requests of the first \<open>max_retries\<close> pairs.\<close>

definition request_of :: "str \<Rightarrow> str \<times> (str \<Rightarrow> str) \<Rightarrow> request" where
  "request_of prompt a = make_request (fst a) prompt ((snd a) prompt)"

definition planned_requests :: "str \<Rightarrow> str \<Rightarrow> int \<Rightarrow> request list" where
  "planned_requests prompt model_name max_retries =
     map (request_of prompt) (take (nat max_retries) (attempts model_name))"

text \<open>
  The Attempt Plan in the words of the specification: the model list, the three
  paraphrases, and their product in model-major order.
\<close>

definition spec_model_list :: "str \<Rightarrow> str list" where
  "spec_model_list preferred =
     (if contains (lit ''flash'') preferred then [preferred]
      else [preferred, lit ''models/gemini-flash-latest''])"

definition spec_paraphrases :: "(str \<Rightarrow> str) list" where
  "spec_paraphrases =
     [\<lambda>q. q,
      \<lambda>q. q @ lit '' Please explain step by step and include practical suggestions.'',
      \<lambda>q. lit ''In scientific terms, describe the stages of: '' @ q]"

definition spec_attempt_plan :: "str \<Rightarrow> (str \<times> (str \<Rightarrow> str)) list" where
  "spec_attempt_plan preferred =
     concat (map (\<lambda>m. map (\<lambda>f. (m, f)) spec_paraphrases) (spec_model_list preferred))"

section \<open>Properties of the Local Fallback Generator\<close>

lemma take_four: "take 4 (a # b # c # d # r) = [a, b, c, d]"
  by (simp add: numeral_eq_Suc)

lemma fallback_lines_length:
  "length (fallback_lines p) = (if length (split p) \<le> 3 then 4 else 6)"
  by (simp add: fallback_lines_def Let_def take_four)

lemma fallback_lines_first:
  "hd (fallback_lines p) = lit ''In careful lines I study '' @ fallback_topic p @ lit '',''"
  by (simp add: fallback_lines_def Let_def take_four)

lemma poem_text_nonempty: "join [10] (fallback_lines p) \<noteq> []"
  by (simp add: fallback_lines_def Let_def take_four lit_def)

lemma poem_text_first_line:
  "prefix (lit ''In careful lines I study '' @ fallback_topic p @ lit '','' @ [10])
     (join [10] (fallback_lines p))"
  by (simp add: fallback_lines_def Let_def take_four)

lemma poem_nonempty: "local_poem_fallback u s = Some r \<Longrightarrow> r \<noteq> []"
  by (auto simp: local_poem_fallback_def poem_text_nonempty split: option.splits)

lemma poem_returns:
  "html_unescape u prompt = Some s \<Longrightarrow>
   local_poem_fallback u prompt = Some (join [10] (fallback_lines (fallback_p s)))"
  by (simp add: local_poem_fallback_def)

lemma unescape_no_ampersand: "38 \<notin> set prompt \<Longrightarrow> html_unescape u prompt = Some prompt"
  by (simp add: html_unescape_def)

text \<open>
  Every line feed inside the topic adds a line to the 4 or 6 entries of the template.
\<close>

lemma poem_line_count:
  "line_count (join [10] (fallback_lines p)) + 1 =
     length (fallback_lines p) + line_count (fallback_topic p)"
  by (simp add: fallback_lines_def Let_def take_four line_count_def lit_def)

lemma line_count_no_lf: "10 \<notin> set s \<Longrightarrow> line_count s = 1"
  by (induction s) (auto simp: line_count_def)

lemmas poem_eval =
  local_poem_fallback_def fallback_lines_def fallback_topic_def fallback_p_def
  html_unescape_def strip_def is_space_def replace_def split_def line_count_def lit_def
  Let_def take_four

text \<open>
  C1, as stated, fails: the topic is copied into the first line with its line feeds, so
  the two-line prompt \<open>"a\nb"\<close> gives a text of 5 lines. (The substitution \<open>Some\<close> is the
  one that changes nothing and never raises; the prompt holds no ampersand.)
\<close>

theorem local_poem_fallback_five_lines:
  "map_option line_count (local_poem_fallback Some (lit ''a'' @ [10] @ lit ''b'')) = Some 5"
  by (simp add: poem_eval)

text \<open>
  C1 (amended): \<open>html.unescape\<close> returns for every input string without an ampersand,
  such as the empty string and whitespace-only strings. For every input string on
  which \<open>html.unescape\<close> returns, \<open>local_poem_fallback\<close> returns a non-empty string: the
  join by line feeds of 4 or 6 template entries, the first of which is
  \<open>"In careful lines I study "\<close>, the topic as it is, and a comma, so that the text begins
  with that line. The text has as many lines as there are entries and one more for
  every line feed inside the topic: 4 or 6 lines whenever the topic holds no line feed.
\<close>

theorem local_poem_fallback_total:
  "(38 \<notin> set prompt \<longrightarrow> html_unescape u prompt = Some prompt)
   \<and> (html_unescape u prompt = Some s \<longrightarrow>
        local_poem_fallback u prompt = Some (join [10] (fallback_lines (fallback_p s)))
        \<and> join [10] (fallback_lines (fallback_p s)) \<noteq> []
        \<and> (length (fallback_lines (fallback_p s)) = 4
             \<or> length (fallback_lines (fallback_p s)) = 6)
        \<and> hd (fallback_lines (fallback_p s))
             = lit ''In careful lines I study '' @ fallback_topic (fallback_p s) @ lit '',''
        \<and> prefix (lit ''In careful lines I study '' @ fallback_topic (fallback_p s)
                    @ lit '','' @ [10])
             (join [10] (fallback_lines (fallback_p s)))
        \<and> line_count (join [10] (fallback_lines (fallback_p s))) + 1
             = length (fallback_lines (fallback_p s))
               + line_count (fallback_topic (fallback_p s))
        \<and> (10 \<notin> set (fallback_topic (fallback_p s)) \<longrightarrow>
             line_count (join [10] (fallback_lines (fallback_p s))) = 4
             \<or> line_count (join [10] (fallback_lines (fallback_p s))) = 6))"
proof (intro conjI impI)
  assume "38 \<notin> set prompt"
  then show "html_unescape u prompt = Some prompt"
    by (rule unescape_no_ampersand)
next
  assume "html_unescape u prompt = Some s"
  then show "local_poem_fallback u prompt = Some (join [10] (fallback_lines (fallback_p s)))"
    by (rule poem_returns)
next
  show "join [10] (fallback_lines (fallback_p s)) \<noteq> []"
    by (rule poem_text_nonempty)
next
  show "length (fallback_lines (fallback_p s)) = 4 \<or> length (fallback_lines (fallback_p s)) = 6"
    by (simp add: fallback_lines_length)
next
  show "hd (fallback_lines (fallback_p s))
          = lit ''In careful lines I study '' @ fallback_topic (fallback_p s) @ lit '',''"
    by (rule fallback_lines_first)
next
  show "prefix (lit ''In careful lines I study '' @ fallback_topic (fallback_p s)
                  @ lit '','' @ [10])
          (join [10] (fallback_lines (fallback_p s)))"
    by (rule poem_text_first_line)
next
  show "line_count (join [10] (fallback_lines (fallback_p s))) + 1
          = length (fallback_lines (fallback_p s)) + line_count (fallback_topic (fallback_p s))"
    by (rule poem_line_count)
next
  assume "10 \<notin> set (fallback_topic (fallback_p s))"
  then show "line_count (join [10] (fallback_lines (fallback_p s))) = 4
             \<or> line_count (join [10] (fallback_lines (fallback_p s))) = 6"
    using poem_line_count [of "fallback_p s"] fallback_lines_length [of "fallback_p s"]
    by (simp add: line_count_no_lf split: if_splits)
qed

text \<open>
  The witness: the empty prompt, with a substitution that always raises, and the prompt
  \<open>"R&D"\<close>, with a substitution that changes nothing.
\<close>

theorem local_poem_fallback_total_witness:
  "38 \<notin> set ([] :: str)
   \<and> html_unescape (\<lambda>s. None) [] = Some []
   \<and> 10 \<notin> set (fallback_topic (fallback_p []))
   \<and> map_option line_count (local_poem_fallback (\<lambda>s. None) []) = Some 4
   \<and> html_unescape Some (lit ''R&D'') = Some (lit ''R&D'')
   \<and> 10 \<notin> set (fallback_topic (fallback_p (lit ''R&D'')))
   \<and> local_poem_fallback Some (lit ''R&D'')
       = Some (lit ''In careful lines I study R&D,'' @ [10]
               @ lit ''A generator dreams, a critic critiques;'' @ [10]
               @ lit ''Adversarial rhythm tunes model feats,'' @ [10]
               @ lit ''Yet metrics warn where shortcuts meet.'')"
  using local_poem_fallback_total [of "[]" "\<lambda>s. None" "[]"]
    local_poem_fallback_total [of "lit ''R&D''" Some "lit ''R&D''"]
  by (simp add: poem_eval)

text \<open>
  C6, as stated, fails: the prompt \<open>"a\nb\nc"\<close> has 3 tokens and the text returned for
  it has 6 lines, not 4.
\<close>

theorem local_poem_fallback_three_tokens_six_lines:
  "html_unescape Some (lit ''a'' @ [10] @ lit ''b'' @ [10] @ lit ''c'') = Some (lit ''a'' @ [10] @ lit ''b'' @ [10] @ lit ''c'')
   \<and> length (split (fallback_p (lit ''a'' @ [10] @ lit ''b'' @ [10] @ lit ''c''))) \<le> 3
   \<and> map_option line_count (local_poem_fallback Some (lit ''a'' @ [10] @ lit ''b'' @ [10] @ lit ''c'')) = Some 6"
  by (simp add: poem_eval)

text \<open>
  C6 (amended): the text is built from exactly 4 template entries if the un-escaped,
  trimmed input has 3 or fewer whitespace-separated tokens, and from exactly 6
  otherwise; when \<open>html.unescape\<close> returns and the topic holds no line feed, these are
  the numbers of lines of the text returned. The input \<open>"AI"\<close> yields 4 lines.
\<close>

theorem local_poem_fallback_truncation:
  "length (fallback_lines (fallback_p s)) =
     (if length (split (fallback_p s)) \<le> 3 then 4 else 6)
   \<and> (html_unescape u prompt = Some s \<longrightarrow>
        10 \<notin> set (fallback_topic (fallback_p s)) \<longrightarrow>
        map_option line_count (local_poem_fallback u prompt) =
          Some (if length (split (fallback_p s)) \<le> 3 then 4 else 6))
   \<and> map_option line_count (local_poem_fallback u (lit ''AI'')) = Some 4"
proof (intro conjI impI)
  show "length (fallback_lines (fallback_p s)) =
     (if length (split (fallback_p s)) \<le> 3 then 4 else 6)"
    by (rule fallback_lines_length)
next
  assume u: "html_unescape u prompt = Some s"
    and t: "10 \<notin> set (fallback_topic (fallback_p s))"
  from t have "line_count (join [10] (fallback_lines (fallback_p s))) =
          (if length (split (fallback_p s)) \<le> 3 then 4 else 6)"
    using poem_line_count [of "fallback_p s"] fallback_lines_length [of "fallback_p s"]
    by (simp add: line_count_no_lf split: if_splits)
  with poem_returns [OF u]
  show "map_option line_count (local_poem_fallback u prompt) =
          Some (if length (split (fallback_p s)) \<le> 3 then 4 else 6)"
    by simp
next
  show "map_option line_count (local_poem_fallback u (lit ''AI'')) = Some 4"
    by (simp add: poem_eval)
qed

theorem local_poem_fallback_truncation_witness:
  "html_unescape (\<lambda>s. None) (lit ''one two three four'') = Some (lit ''one two three four'')
   \<and> 10 \<notin> set (fallback_topic (fallback_p (lit ''one two three four'')))
   \<and> length (split (fallback_p (lit ''one two three four''))) = 4
   \<and> map_option line_count (local_poem_fallback (\<lambda>s. None) (lit ''one two three four''))
       = Some 6"
  using local_poem_fallback_truncation
    [of "lit ''one two three four''" "\<lambda>s. None" "lit ''one two three four''"]
  by (simp add: poem_eval)

text \<open>
  C7, as stated, fails: removing \<open>"pipeline of"\<close> leaves the blanks on both of its sides,
  so the topic is not \<open>"the a GAN"\<close> and the text does not begin with that line.
\<close>

theorem gan_topic_not_single_spaced:
  "html_unescape Some (lit ''Explain the pipeline of a GAN'') = Some (lit ''Explain the pipeline of a GAN'')
   \<and> fallback_topic (fallback_p (lit ''Explain the pipeline of a GAN'')) \<noteq> lit ''the a GAN''
   \<and> map_option (prefix (lit ''In careful lines I study the a GAN,''))
         (local_poem_fallback Some (lit ''Explain the pipeline of a GAN'')) = Some False"
  by (simp add: poem_eval)

text \<open>
  C7 (amended): for the prompt \<open>"Explain the pipeline of a GAN"\<close>, which
  \<open>html.unescape\<close> returns as it is, the topic is \<open>"the  a GAN"\<close>, with two blanks after
  \<open>the\<close>, and the text returned has 6 lines, the first being
  \<open>"In careful lines I study the  a GAN,"\<close>.
\<close>

theorem gan_poem:
  "html_unescape u (lit ''Explain the pipeline of a GAN'') = Some (lit ''Explain the pipeline of a GAN'')
   \<and> fallback_topic (fallback_p (lit ''Explain the pipeline of a GAN'')) = lit ''the  a GAN''
   \<and> map_option line_count (local_poem_fallback u (lit ''Explain the pipeline of a GAN'')) = Some 6
   \<and> map_option (prefix (lit ''In careful lines I study the  a GAN,'' @ [10]))
        (local_poem_fallback u (lit ''Explain the pipeline of a GAN'')) = Some True"
  by (simp add: poem_eval)

section \<open>Properties of the Response Extractor\<close>

lemma parts_loop_eq:
  "parts_loop ps out =
     out @ filter (\<lambda>t. t \<noteq> [])
             (concat (map (\<lambda>p. case part_text p of None \<Rightarrow> [] | Some t \<Rightarrow> [t]) ps))"
  by (induction ps arbitrary: out) (auto split: option.splits)

lemma cands_loop_eq:
  "cands_loop cs out = out @ filter (\<lambda>t. t \<noteq> []) (part_texts \<lparr>resp_candidates = Some cs\<rparr>)"
  by (induction cs arbitrary: out) (auto simp: part_texts_def parts_loop_eq split: option.splits)

lemma strip_Nil: "strip [] = []"
  by (simp add: strip_def)

lemma strip_conj: "(x \<noteq> [] \<and> strip x \<noteq> []) = (strip x \<noteq> [])"
  by (auto simp: strip_Nil)

text \<open>The two loops and the final join, in terms of the texts of the response.\<close>

lemma extract_eq:
  "extract_text_from_response r =
     (if filter (\<lambda>t. t \<noteq> []) (part_texts r) \<noteq> []
      then Some (join [10] (map strip (filter (\<lambda>t. strip t \<noteq> []) (part_texts r))))
      else None)"
proof (cases "resp_candidates r")
  case None
  then show ?thesis
    by (simp add: extract_text_from_response_def part_texts_def)
next
  case (Some cs)
  then have "part_texts r = part_texts \<lparr>resp_candidates = Some cs\<rparr>"
    by (simp add: part_texts_def)
  with Some show ?thesis
    by (simp add: extract_text_from_response_def cands_loop_eq strip_conj)
qed

lemmas extract_eval =
  extract_text_from_response_def part_texts_def strip_def is_space_def lit_def

text \<open>
  C4, as stated, fails: a part whose text is one blank is appended to \<open>parts_out\<close>, the
  list is then not empty, and the join of nothing, the empty string, is returned
  instead of \<open>None\<close>.
\<close>

theorem extract_blank_part_not_None:
  "extract_text_from_response
     \<lparr>resp_candidates =
        Some [\<lparr>cand_content = Some \<lparr>content_parts = Some [\<lparr>part_text = Some (lit '' '')\<rparr>]\<rparr>,
               cand_finish_reason = None\<rparr>]\<rparr> \<noteq> None"
  by (simp add: extract_eval)

text \<open>
  C4 (amended): \<open>extract_text_from_response\<close> returns \<open>None\<close> exactly when no part of
  the response has a non-empty text, in particular when the candidates are absent or
  there are none. When every text is empty or only whitespace, it returns \<open>None\<close> or the
  empty string.
\<close>

theorem extract_no_text:
  "(extract_text_from_response r = None \<longleftrightarrow> (\<forall>t\<in>set (part_texts r). t = []))
   \<and> ((\<forall>t\<in>set (part_texts r). strip t = []) \<longrightarrow>
        extract_text_from_response r = None \<or> extract_text_from_response r = Some [])
   \<and> (resp_candidates r = None \<or> resp_candidates r = Some [] \<longrightarrow>
        extract_text_from_response r = None)"
proof (intro conjI)
  show "extract_text_from_response r = None \<longleftrightarrow> (\<forall>t\<in>set (part_texts r). t = [])"
    by (auto simp: extract_eq filter_empty_conv)
  show "(\<forall>t\<in>set (part_texts r). strip t = []) \<longrightarrow>
        extract_text_from_response r = None \<or> extract_text_from_response r = Some []"
    by (simp add: extract_eq filter_empty_conv)
  show "resp_candidates r = None \<or> resp_candidates r = Some [] \<longrightarrow>
        extract_text_from_response r = None"
    by (auto simp: extract_text_from_response_def)
qed

theorem extract_no_text_witness:
  "part_texts
        \<lparr>resp_candidates =
           Some [\<lparr>cand_content = Some \<lparr>content_parts = Some [\<lparr>part_text = Some []\<rparr>,
                                                               \<lparr>part_text = None\<rparr>]\<rparr>,
                  cand_finish_reason = Some 1\<rparr>]\<rparr> = [[]]
   \<and> extract_text_from_response
        \<lparr>resp_candidates =
           Some [\<lparr>cand_content = Some \<lparr>content_parts = Some [\<lparr>part_text = Some []\<rparr>,
                                                               \<lparr>part_text = None\<rparr>]\<rparr>,
                  cand_finish_reason = Some 1\<rparr>]\<rparr> = None
   \<and> map strip (part_texts
        \<lparr>resp_candidates =
           Some [\<lparr>cand_content = Some \<lparr>content_parts = Some [\<lparr>part_text = Some [9, 32]\<rparr>]\<rparr>,
                  cand_finish_reason = None\<rparr>]\<rparr>) = [[]]
   \<and> extract_text_from_response
        \<lparr>resp_candidates =
           Some [\<lparr>cand_content = Some \<lparr>content_parts = Some [\<lparr>part_text = Some [9, 32]\<rparr>]\<rparr>,
                  cand_finish_reason = None\<rparr>]\<rparr> = Some []
   \<and> extract_text_from_response \<lparr>resp_candidates = Some []\<rparr> = None"
  using
    extract_no_text [of "\<lparr>resp_candidates =
           Some [\<lparr>cand_content = Some \<lparr>content_parts = Some [\<lparr>part_text = Some []\<rparr>,
                                                               \<lparr>part_text = None\<rparr>]\<rparr>,
                  cand_finish_reason = Some 1\<rparr>]\<rparr>"]
    extract_no_text [of "\<lparr>resp_candidates =
           Some [\<lparr>cand_content = Some \<lparr>content_parts = Some [\<lparr>part_text = Some [9, 32]\<rparr>]\<rparr>,
                  cand_finish_reason = None\<rparr>]\<rparr>"]
    extract_no_text [of "\<lparr>resp_candidates = Some []\<rparr>"]
  by (simp add: extract_eval)

text \<open>
  C5: when some part of the response has a non-empty text, the extractor returns the
  trimmed texts that are non-empty, joined by line feeds, over all candidates and all
  their parts in order. A part whose text is only whitespace has an empty trimmed text
  and contributes nothing. Absent candidates, contents, parts and texts are skipped:
  the function is total on responses with any of them missing.
\<close>

theorem extract_joins_trimmed_texts:
  "\<exists>t\<in>set (part_texts r). t \<noteq> [] \<Longrightarrow>
   extract_text_from_response r =
     Some (join [10] (map strip (filter (\<lambda>t. strip t \<noteq> []) (part_texts r))))"
  by (auto simp: extract_eq filter_empty_conv)

theorem extract_joins_trimmed_texts_witness:
  "(\<exists>t\<in>set (part_texts
        \<lparr>resp_candidates =
           Some [\<lparr>cand_content = Some \<lparr>content_parts = Some [\<lparr>part_text = Some (lit '' a '')\<rparr>,
                                                               \<lparr>part_text = None\<rparr>,
                                                               \<lparr>part_text = Some []\<rparr>]\<rparr>,
                  cand_finish_reason = None\<rparr>,
                 \<lparr>cand_content = None, cand_finish_reason = None\<rparr>,
                 \<lparr>cand_content = Some \<lparr>content_parts = None\<rparr>, cand_finish_reason = None\<rparr>,
                 \<lparr>cand_content = Some \<lparr>content_parts = Some [\<lparr>part_text = Some (lit ''b c'')\<rparr>]\<rparr>,
                  cand_finish_reason = None\<rparr>]\<rparr>). t \<noteq> [])
   \<and> extract_text_from_response
        \<lparr>resp_candidates =
           Some [\<lparr>cand_content = Some \<lparr>content_parts = Some [\<lparr>part_text = Some (lit '' a '')\<rparr>,
                                                               \<lparr>part_text = None\<rparr>,
                                                               \<lparr>part_text = Some []\<rparr>]\<rparr>,
                  cand_finish_reason = None\<rparr>,
                 \<lparr>cand_content = None, cand_finish_reason = None\<rparr>,
                 \<lparr>cand_content = Some \<lparr>content_parts = None\<rparr>, cand_finish_reason = None\<rparr>,
                 \<lparr>cand_content = Some \<lparr>content_parts = Some [\<lparr>part_text = Some (lit ''b c'')\<rparr>]\<rparr>,
                  cand_finish_reason = None\<rparr>]\<rparr>
       = Some (lit ''a'' @ [10] @ lit ''b c'')"
  using extract_joins_trimmed_texts [of
        "\<lparr>resp_candidates =
           Some [\<lparr>cand_content = Some \<lparr>content_parts = Some [\<lparr>part_text = Some (lit '' a '')\<rparr>,
                                                               \<lparr>part_text = None\<rparr>,
                                                               \<lparr>part_text = Some []\<rparr>]\<rparr>,
                  cand_finish_reason = None\<rparr>,
                 \<lparr>cand_content = None, cand_finish_reason = None\<rparr>,
                 \<lparr>cand_content = Some \<lparr>content_parts = None\<rparr>, cand_finish_reason = None\<rparr>,
                 \<lparr>cand_content = Some \<lparr>content_parts = Some [\<lparr>part_text = Some (lit ''b c'')\<rparr>]\<rparr>,
                  cand_finish_reason = None\<rparr>]\<rparr>"]
  by (simp add: extract_eval)

section \<open>Properties of the Reply Controller\<close>

subsection \<open>One attempt\<close>

lemma invocations_append: "invocations (xs @ ys) = invocations xs @ invocations ys"
  by (induction xs rule: invocations.induct) auto

lemma try_attempt_log:
  "invocations (snd (try_attempt remote prompt mdl parap lg)) =
     invocations lg @ [make_request mdl prompt (parap prompt)]"
  by (simp add: try_attempt_def Let_def invocations_append split: outcome.splits option.splits list.splits)

lemma try_attempt_result:
  "fst (try_attempt remote prompt mdl parap lg) =
     map_option (\<lambda>t. (strip t, Gemini))
       (outcome_text (remote (length (invocations lg)) (make_request mdl prompt (parap prompt))))"
  by (simp add: try_attempt_def Let_def outcome_text_def split: outcome.splits option.splits list.splits)

lemma try_attempt_cases:
  obtains (fail) lg1 where
      "try_attempt remote prompt mdl parap lg = (None, lg1)"
      "outcome_text (remote (length (invocations lg)) (request_of prompt (mdl, parap))) = None"
      "invocations lg1 = invocations lg @ [request_of prompt (mdl, parap)]"
  | (success) t lg1 where
      "try_attempt remote prompt mdl parap lg = (Some (strip t, Gemini), lg1)"
      "outcome_text (remote (length (invocations lg)) (request_of prompt (mdl, parap))) = Some t"
      "invocations lg1 = invocations lg @ [request_of prompt (mdl, parap)]"
proof -
  obtain r lg1 where t: "try_attempt remote prompt mdl parap lg = (r, lg1)"
    by (cases "try_attempt remote prompt mdl parap lg")
  have l: "invocations lg1 = invocations lg @ [request_of prompt (mdl, parap)]"
    using try_attempt_log [of remote prompt mdl parap lg] t by (simp add: request_of_def)
  have r: "r = map_option (\<lambda>t. (strip t, Gemini))
       (outcome_text (remote (length (invocations lg)) (request_of prompt (mdl, parap))))"
    using try_attempt_result [of remote prompt mdl parap lg] t by (simp add: request_of_def)
  show thesis
  proof (cases "outcome_text (remote (length (invocations lg)) (request_of prompt (mdl, parap)))")
    case None
    with t l r show ?thesis by (auto intro: fail)
  next
    case (Some a)
    with t l r show ?thesis by (auto intro: success)
  qed
qed

subsection \<open>The nested loops are one loop over the first pairs\<close>

text \<open>
  The counter is raised before it is compared, and \<open>break\<close> leaves the inner loop
  only: the outer loop then enters the inner loop for the next model, which breaks at
  once. So the two loops try the first \<open>max_retries\<close> pairs and no other.
\<close>

lemma run_attempts_append:
  "run_attempts remote prompt (xs @ ys) lg =
     (case run_attempts remote prompt xs lg of
        (Some result, lg1) \<Rightarrow> (Some result, lg1)
      | (None, lg1) \<Rightarrow> run_attempts remote prompt ys lg1)"
  by (induction remote prompt xs lg rule: run_attempts.induct) (auto split: prod.splits option.splits)

lemma inner_loop_flat:
  "inner_loop remote prompt N mdl ps st = (res, st') \<Longrightarrow>
   run_attempts remote prompt (map (Pair mdl) (take (nat (N - attempt st)) ps)) (log st)
     = (res, log st')
   \<and> (res = None \<longrightarrow> nat (N - attempt st') = nat (N - attempt st) - length ps)"
proof (induction ps arbitrary: st)
  case Nil
  then show ?case by auto
next
  case (Cons parap rest)
  let ?st1 = "st\<lparr>attempt := attempt st + 1\<rparr>"
  show ?case
  proof (cases "attempt st + 1 > N")
    case True
    with Cons.prems show ?thesis by (auto simp: Let_def)
  next
    case False
    then have k: "nat (N - attempt st) = Suc (nat (N - (attempt st + 1)))" by simp
    obtain r lg where t: "try_attempt remote prompt mdl parap (log st) = (r, lg)"
      by (cases "try_attempt remote prompt mdl parap (log st)")
    show ?thesis
    proof (cases r)
      case None
      with Cons.prems False t
      have "inner_loop remote prompt N mdl rest (?st1\<lparr>log := lg\<rparr>) = (res, st')"
        by (simp add: Let_def)
      from Cons.IH [OF this] show ?thesis
        using t None k by simp
    next
      case (Some a)
      with Cons.prems False t show ?thesis
        using k by (auto simp: Let_def)
    qed
  qed
qed

lemma outer_loop_flat:
  "outer_loop remote prompt N ms st = (res, st') \<Longrightarrow>
   run_attempts remote prompt
     (take (nat (N - attempt st)) (concat (map (\<lambda>m. map (Pair m) paraphrases) ms))) (log st)
     = (res, log st')"
proof (induction ms arbitrary: st)
  case Nil
  then show ?case by auto
next
  case (Cons mdl rest)
  obtain r st1 where i: "inner_loop remote prompt N mdl paraphrases st = (r, st1)"
    by (cases "inner_loop remote prompt N mdl paraphrases st")
  note f = inner_loop_flat [OF i]
  show ?case
  proof (cases r)
    case None
    with Cons.prems i have "outer_loop remote prompt N rest st1 = (res, st')" by simp
    from Cons.IH [OF this] show ?thesis
      using f None by (simp add: run_attempts_append take_map)
  next
    case (Some a)
    with Cons.prems i f show ?thesis
      by (auto simp: run_attempts_append take_map)
  qed
qed

lemma kelly_reply_flat:
  "kelly_reply u remote prompt m N =
     (case run_attempts remote prompt (take (nat N) (attempts m)) [] of
        (Some result, lg) \<Rightarrow> (Some result, lg)
      | (None, lg) \<Rightarrow> (map_option (\<lambda>t. (t, Fallback)) (local_poem_fallback u prompt), lg))"
proof -
  obtain r st where o: "outer_loop remote prompt N (model_attempts m) \<lparr>attempt = 0, log = []\<rparr> = (r, st)"
    by (cases "outer_loop remote prompt N (model_attempts m) \<lparr>attempt = 0, log = []\<rparr>")
  from outer_loop_flat [OF o] o show ?thesis
    by (simp add: kelly_reply_def attempts_def split: option.splits)
qed

lemma kelly_reply_log:
  "snd (kelly_reply u remote prompt m N)
     = snd (run_attempts remote prompt (take (nat N) (attempts m)) [])"
  by (simp add: kelly_reply_flat split: prod.splits option.splits)

lemma kelly_reply_result:
  "fst (kelly_reply u remote prompt m N)
     = (case fst (run_attempts remote prompt (take (nat N) (attempts m)) []) of
          Some result \<Rightarrow> Some result
        | None \<Rightarrow> map_option (\<lambda>t. (t, Fallback)) (local_poem_fallback u prompt))"
  by (simp add: kelly_reply_flat split: prod.splits option.splits)

subsection \<open>What a run of attempts calls and returns\<close>

lemma run_attempts_all_fail:
  "(\<forall>i<length xs. outcome_text (remote (length (invocations lg) + i) (request_of prompt (xs ! i))) = None)
   \<Longrightarrow> fst (run_attempts remote prompt xs lg) = None
     \<and> invocations (snd (run_attempts remote prompt xs lg)) = invocations lg @ map (request_of prompt) xs"
proof (induction xs arbitrary: lg)
  case Nil
  then show ?case by simp
next
  case (Cons a xs)
  obtain mdl parap where a: "a = (mdl, parap)" by (cases a)
  from Cons.prems have h0: "outcome_text (remote (length (invocations lg)) (request_of prompt a)) = None"
    by fastforce
  from Cons.prems have hs: "\<forall>i<length xs. outcome_text (remote (Suc (length (invocations lg)) + i) (request_of prompt (xs ! i))) = None"
    by fastforce
  show ?case
  proof (cases rule: try_attempt_cases [of remote prompt mdl parap lg])
    case (fail lg1)
    from fail(3) hs have "\<forall>i<length xs. outcome_text (remote (length (invocations lg1) + i) (request_of prompt (xs ! i))) = None"
      by simp
    from Cons.IH [OF this] fail a show ?thesis by simp
  next
    case (success t lg1)
    with h0 a show ?thesis by simp
  qed
qed

lemma run_attempts_first_success:
  "k < length xs \<Longrightarrow>
   (\<forall>i<k. outcome_text (remote (length (invocations lg) + i) (request_of prompt (xs ! i))) = None) \<Longrightarrow>
   outcome_text (remote (length (invocations lg) + k) (request_of prompt (xs ! k))) = Some t \<Longrightarrow>
   fst (run_attempts remote prompt xs lg) = Some (strip t, Gemini)
   \<and> invocations (snd (run_attempts remote prompt xs lg))
       = invocations lg @ map (request_of prompt) (take (Suc k) xs)"
proof (induction xs arbitrary: lg k)
  case Nil
  then show ?case by simp
next
  case (Cons a xs)
  obtain mdl parap where a: "a = (mdl, parap)" by (cases a)
  show ?case
  proof (cases k)
    case 0
    with Cons.prems a have s: "outcome_text (remote (length (invocations lg)) (request_of prompt (mdl, parap))) = Some t"
      by simp
    show ?thesis
    proof (cases rule: try_attempt_cases [of remote prompt mdl parap lg])
      case (fail lg1)
      with s show ?thesis by simp
    next
      case (success t' lg1)
      with s a 0 show ?thesis by simp
    qed
  next
    case (Suc j)
    with Cons.prems have j: "j < length xs" by simp
    from Cons.prems Suc have h0: "outcome_text (remote (length (invocations lg)) (request_of prompt (mdl, parap))) = None"
      using a by fastforce
    from Cons.prems Suc have hs: "\<forall>i<j. outcome_text (remote (Suc (length (invocations lg)) + i) (request_of prompt (xs ! i))) = None"
      by fastforce
    from Cons.prems Suc have hk: "outcome_text (remote (Suc (length (invocations lg)) + j) (request_of prompt (xs ! j))) = Some t"
      by simp
    show ?thesis
    proof (cases rule: try_attempt_cases [of remote prompt mdl parap lg])
      case (fail lg1)
      from fail(3) hs have 1: "\<forall>i<j. outcome_text (remote (length (invocations lg1) + i) (request_of prompt (xs ! i))) = None"
        by simp
      from fail(3) hk have 2: "outcome_text (remote (length (invocations lg1) + j) (request_of prompt (xs ! j))) = Some t"
        by simp
      from Cons.IH [OF j 1 2] fail a Suc show ?thesis by simp
    next
      case (success t' lg1)
      with h0 show ?thesis by simp
    qed
  qed
qed

lemma run_attempts_prefix:
  "\<exists>k\<le>length xs. invocations (snd (run_attempts remote prompt xs lg))
       = invocations lg @ map (request_of prompt) (take k xs)"
proof (induction xs arbitrary: lg)
  case Nil
  then show ?case by simp
next
  case (Cons a xs)
  obtain mdl parap where a: "a = (mdl, parap)" by (cases a)
  show ?case
  proof (cases rule: try_attempt_cases [of remote prompt mdl parap lg])
    case (fail lg1)
    from Cons.IH [of lg1] obtain k where "k \<le> length xs"
      "invocations (snd (run_attempts remote prompt xs lg1)) = invocations lg1 @ map (request_of prompt) (take k xs)"
      by blast
    with fail a have "Suc k \<le> length (a # xs) \<and> invocations (snd (run_attempts remote prompt (a # xs) lg))
       = invocations lg @ map (request_of prompt) (take (Suc k) (a # xs))" by simp
    then show ?thesis by blast
  next
    case (success t lg1)
    with a have "Suc 0 \<le> length (a # xs) \<and> invocations (snd (run_attempts remote prompt (a # xs) lg))
       = invocations lg @ map (request_of prompt) (take (Suc 0) (a # xs))" by simp
    then show ?thesis by blast
  qed
qed

lemma run_attempts_result:
  "fst (run_attempts remote prompt xs lg) = Some res \<Longrightarrow>
   \<exists>n req t. outcome_text (remote n req) = Some t \<and> res = (strip t, Gemini)"
proof (induction xs arbitrary: lg)
  case Nil
  then show ?case by simp
next
  case (Cons a xs)
  obtain mdl parap where a: "a = (mdl, parap)" by (cases a)
  show ?case
  proof (cases rule: try_attempt_cases [of remote prompt mdl parap lg])
    case (fail lg1)
    with Cons.prems a have "fst (run_attempts remote prompt xs lg1) = Some res" by simp
    from Cons.IH [OF this] show ?thesis .
  next
    case (success t lg1)
    with Cons.prems a have "res = (strip t, Gemini)" by simp
    with success(2) show ?thesis by blast
  qed
qed

subsection \<open>A text that is returned is not blank\<close>

lemma strip_nonempty_iff: "strip s \<noteq> [] \<longleftrightarrow> (\<exists>c\<in>set s. \<not> is_space c)"
proof -
  have "(\<exists>c\<in>set (dropWhile is_space s). \<not> is_space c) \<longleftrightarrow> (\<exists>c\<in>set s. \<not> is_space c)"
  proof
    assume "\<exists>c\<in>set (dropWhile is_space s). \<not> is_space c"
    then show "\<exists>c\<in>set s. \<not> is_space c" by (meson set_dropWhileD)
  next
    assume "\<exists>c\<in>set s. \<not> is_space c"
    then have "dropWhile is_space s \<noteq> []" by simp
    then have "\<not> is_space (hd (dropWhile is_space s))" by (rule hd_dropWhile)
    moreover from \<open>dropWhile is_space s \<noteq> []\<close> have "hd (dropWhile is_space s) \<in> set (dropWhile is_space s)"
      by simp
    ultimately show "\<exists>c\<in>set (dropWhile is_space s). \<not> is_space c" by blast
  qed
  then show ?thesis
    by (simp add: strip_def)
qed

lemma strip_idem_nonempty: "strip x \<noteq> [] \<Longrightarrow> strip (strip x) \<noteq> []"
proof -
  assume a: "strip x \<noteq> []"
  let ?d = "dropWhile is_space (rev (dropWhile is_space x))"
  from a have d: "?d \<noteq> []" by (simp add: strip_def)
  then have "\<not> is_space (hd ?d)" by (rule hd_dropWhile)
  moreover from d have "hd ?d \<in> set (strip x)" by (simp add: strip_def)
  ultimately show ?thesis by (auto simp: strip_nonempty_iff)
qed

lemma set_join: "y \<in> set ys \<Longrightarrow> set y \<subseteq> set (join sep ys)"
  by (induction sep ys rule: join.induct) auto

lemma outcome_text_strip: "outcome_text out = Some t \<Longrightarrow> strip t \<noteq> []"
proof -
  assume a: "outcome_text out = Some t"
  then obtain r where r: "out = Returns r" "extract_text_from_response r = Some t" "t \<noteq> []"
    by (auto simp: outcome_text_def split: outcome.splits option.splits list.splits)
  let ?ys = "map strip (filter (\<lambda>t. strip t \<noteq> []) (part_texts r))"
  from r(2) have t: "t = join [10] ?ys"
    by (simp add: extract_eq split: if_splits)
  with r(3) have "?ys \<noteq> []" by auto
  then obtain y where y: "y \<in> set ?ys" by (meson last_in_set)
  then obtain x where "y = strip x" "strip x \<noteq> []" by auto
  then have "strip y \<noteq> []" by (simp add: strip_idem_nonempty)
  then obtain c where "c \<in> set y" "\<not> is_space c" by (auto simp: strip_nonempty_iff)
  with set_join [OF y, of "[10]"] t show ?thesis
    by (auto simp: strip_nonempty_iff)
qed

lemma length_attempts: "length (attempts m) = 3 * length (model_attempts m)"
  by (simp add: attempts_def paraphrases_def length_concat comp_def sum_list_triv)

lemma length_model_attempts: "length (model_attempts m) = 1 \<or> length (model_attempts m) = 2"
  by (simp add: model_attempts_def)

lemma attempts_spec: "attempts m = spec_attempt_plan m"
  by (simp add: attempts_def spec_attempt_plan_def paraphrases_def spec_paraphrases_def
      model_attempts_def spec_model_list_def)

lemma planned_nth:
  "i < length (planned_requests prompt m N) \<Longrightarrow>
   request_of prompt (take (nat N) (attempts m) ! i) = planned_requests prompt m N ! i"
  by (simp add: planned_requests_def)

subsection \<open>The claims on the Reply Controller\<close>

text \<open>
  C2: for a maximum of at least 1, \<open>kelly_reply\<close> makes at most \<open>max_retries\<close> remote
  calls. When no attempt yields text, whether the call raises or returns a response
  without text, every attempt takes one slot: the number of calls is the smaller of
  \<open>max_retries\<close> and the number of pairs (three per model), and what \<open>kelly_reply\<close>
  returns is what \<open>local_poem_fallback\<close> returns, tagged \<open>fallback\<close>. With a maximum of 3
  that is exactly 3 calls, and a result tagged \<open>fallback\<close> when \<open>html.unescape\<close> returns.
\<close>

theorem kelly_reply_attempt_bound:
  "(1 \<le> N \<longrightarrow> int (length (invocations (snd (kelly_reply u remote prompt m N)))) \<le> N)
   \<and> ((\<forall>n req. outcome_text (remote n req) = None) \<longrightarrow>
        length (invocations (snd (kelly_reply u remote prompt m N)))
          = min (nat N) (3 * length (model_attempts m))
        \<and> fst (kelly_reply u remote prompt m N)
            = map_option (\<lambda>t. (t, Fallback)) (local_poem_fallback u prompt))
   \<and> ((\<forall>n req. outcome_text (remote n req) = None) \<longrightarrow>
        length (invocations (snd (kelly_reply u remote prompt m 3))) = 3
        \<and> (html_unescape u prompt = Some s \<longrightarrow>
             fst (kelly_reply u remote prompt m 3)
               = Some (join [10] (fallback_lines (fallback_p s)), Fallback)))"
proof -
  have bound: "length (invocations (snd (kelly_reply u remote prompt m N))) \<le> nat N" for N
  proof -
    obtain k where "k \<le> length (take (nat N) (attempts m))"
      "invocations (snd (run_attempts remote prompt (take (nat N) (attempts m)) []))
         = invocations [] @ map (request_of prompt) (take k (take (nat N) (attempts m)))"
      using run_attempts_prefix [of "take (nat N) (attempts m)" remote prompt "[]"] by blast
    then show ?thesis
      by (simp add: kelly_reply_log)
  qed
  have fail: "length (invocations (snd (kelly_reply u remote prompt m N)))
          = min (nat N) (3 * length (model_attempts m))
        \<and> fst (kelly_reply u remote prompt m N)
            = map_option (\<lambda>t. (t, Fallback)) (local_poem_fallback u prompt)"
    if "\<forall>n req. outcome_text (remote n req) = None" for N
  proof -
    from that have "\<forall>i<length (take (nat N) (attempts m)).
        outcome_text (remote (length (invocations []) + i)
          (request_of prompt (take (nat N) (attempts m) ! i))) = None"
      by simp
    from run_attempts_all_fail [OF this] show ?thesis
      by (simp add: kelly_reply_log kelly_reply_result length_attempts min.commute)
  qed
  have three: "min (nat 3) (3 * length (model_attempts m)) = 3"
    using length_model_attempts [of m] by auto
  show ?thesis
  proof (intro conjI impI)
    assume "1 \<le> N"
    with bound [of N] show "int (length (invocations (snd (kelly_reply u remote prompt m N)))) \<le> N"
      by simp
  next
    assume a: "\<forall>n req. outcome_text (remote n req) = None"
    from fail [OF a, of N]
    show "length (invocations (snd (kelly_reply u remote prompt m N)))
          = min (nat N) (3 * length (model_attempts m))" by simp
    from fail [OF a, of N]
    show "fst (kelly_reply u remote prompt m N)
            = map_option (\<lambda>t. (t, Fallback)) (local_poem_fallback u prompt)" by simp
    from fail [OF a, of 3] three
    show "length (invocations (snd (kelly_reply u remote prompt m 3))) = 3" by simp
  next
    assume a: "\<forall>n req. outcome_text (remote n req) = None"
      and s: "html_unescape u prompt = Some s"
    from fail [OF a, of 3] poem_returns [OF s]
    show "fst (kelly_reply u remote prompt m 3)
               = Some (join [10] (fallback_lines (fallback_p s)), Fallback)" by simp
  qed
qed

theorem kelly_reply_attempt_bound_witness:
  "(1::int) \<le> 3
   \<and> (\<forall>n req. outcome_text ((\<lambda>n req. if n = 1 then Returns \<lparr>resp_candidates = None\<rparr> else Raises) n req) = None)
   \<and> html_unescape (\<lambda>s. None) (lit ''AI'') = Some (lit ''AI'')
   \<and> length (invocations (snd (kelly_reply (\<lambda>s. None) (\<lambda>n req. if n = 1 then Returns \<lparr>resp_candidates = None\<rparr> else Raises)
         (lit ''AI'') (lit ''models/gemini-2.5-pro'') 3))) = 3
   \<and> fst (kelly_reply (\<lambda>s. None) (\<lambda>n req. if n = 1 then Returns \<lparr>resp_candidates = None\<rparr> else Raises)
         (lit ''AI'') (lit ''models/gemini-2.5-pro'') 3)
       = Some (join [10] (fallback_lines (fallback_p (lit ''AI''))), Fallback)"
proof -
  have a: "\<forall>n req. outcome_text ((\<lambda>n req. if n = 1 then Returns \<lparr>resp_candidates = None\<rparr> else Raises) n req) = None"
    by (simp add: outcome_text_def extract_text_from_response_def)
  have h: "html_unescape (\<lambda>s. None) (lit ''AI'') = Some (lit ''AI'')"
    by (simp add: html_unescape_def lit_def)
  note k = kelly_reply_attempt_bound [of 3 "\<lambda>s. None" "(\<lambda>n req. if n = 1 then Returns \<lparr>resp_candidates = None\<rparr> else Raises)"
      "lit ''AI''" "lit ''models/gemini-2.5-pro''" "lit ''AI''", THEN conjunct2, THEN conjunct2]
  from k a have "length (invocations (snd (kelly_reply (\<lambda>s. None) (\<lambda>n req. if n = 1 then Returns \<lparr>resp_candidates = None\<rparr> else Raises)
         (lit ''AI'') (lit ''models/gemini-2.5-pro'') 3))) = 3
     \<and> (html_unescape (\<lambda>s. None) (lit ''AI'') = Some (lit ''AI'') \<longrightarrow>
        fst (kelly_reply (\<lambda>s. None) (\<lambda>n req. if n = 1 then Returns \<lparr>resp_candidates = None\<rparr> else Raises)
         (lit ''AI'') (lit ''models/gemini-2.5-pro'') 3)
       = Some (join [10] (fallback_lines (fallback_p (lit ''AI''))), Fallback))"
    by (rule mp)
  with a h show ?thesis by simp
qed

text \<open>
  C3: when the attempt number \<open>k\<close> (counted from 0, within the first \<open>max_retries\<close> pairs)
  is the first one that yields a non-empty text \<open>t\<close>, \<open>kelly_reply\<close> returns the stripped
  text tagged \<open>gemini\<close>, and the remote calls made are exactly those of the attempts up
  to \<open>k\<close>: none follows.
\<close>

theorem kelly_reply_first_success:
  "k < length (planned_requests prompt m N) \<Longrightarrow>
   \<forall>i<k. outcome_text (remote i (planned_requests prompt m N ! i)) = None \<Longrightarrow>
   outcome_text (remote k (planned_requests prompt m N ! k)) = Some t \<Longrightarrow>
   fst (kelly_reply u remote prompt m N) = Some (strip t, Gemini)
   \<and> invocations (snd (kelly_reply u remote prompt m N))
       = take (Suc k) (planned_requests prompt m N)"
proof -
  assume k: "k < length (planned_requests prompt m N)"
    and before: "\<forall>i<k. outcome_text (remote i (planned_requests prompt m N ! i)) = None"
    and at: "outcome_text (remote k (planned_requests prompt m N ! k)) = Some t"
  let ?xs = "take (nat N) (attempts m)"
  from k have k': "k < length ?xs" by (simp add: planned_requests_def)
  from before k have 1: "\<forall>i<k. outcome_text (remote (length (invocations []) + i)
      (request_of prompt (?xs ! i))) = None"
    by (simp add: planned_nth)
  from at k have 2: "outcome_text (remote (length (invocations []) + k)
      (request_of prompt (?xs ! k))) = Some t"
    by (simp add: planned_nth)
  from run_attempts_first_success [OF k' 1 2] show ?thesis
    by (simp add: kelly_reply_log kelly_reply_result planned_requests_def take_map)
qed

theorem kelly_reply_first_success_witness:
  "1 < length (planned_requests (lit ''AI'') (lit ''models/gemini-flash-latest'') 3)
   \<and> fst (kelly_reply (\<lambda>s. None)
         (\<lambda>n req. if n = 1
            then Returns \<lparr>resp_candidates =
                   Some [\<lparr>cand_content = Some \<lparr>content_parts = Some [\<lparr>part_text = Some (lit '' hello '')\<rparr>]\<rparr>,
                          cand_finish_reason = Some 1\<rparr>]\<rparr>
            else Raises)
         (lit ''AI'') (lit ''models/gemini-flash-latest'') 3) = Some (lit ''hello'', Gemini)
   \<and> length (invocations (snd (kelly_reply (\<lambda>s. None)
         (\<lambda>n req. if n = 1
            then Returns \<lparr>resp_candidates =
                   Some [\<lparr>cand_content = Some \<lparr>content_parts = Some [\<lparr>part_text = Some (lit '' hello '')\<rparr>]\<rparr>,
                          cand_finish_reason = Some 1\<rparr>]\<rparr>
            else Raises)
         (lit ''AI'') (lit ''models/gemini-flash-latest'') 3))) = 2"
  using kelly_reply_first_success [of 1 "lit ''AI''" "lit ''models/gemini-flash-latest''" 3
      "(\<lambda>n req. if n = 1
            then Returns \<lparr>resp_candidates =
                   Some [\<lparr>cand_content = Some \<lparr>content_parts = Some [\<lparr>part_text = Some (lit '' hello '')\<rparr>]\<rparr>,
                          cand_finish_reason = Some 1\<rparr>]\<rparr>
            else Raises)" "lit ''hello''" "\<lambda>s. None"]
  by (simp add: planned_requests_def length_attempts model_attempts_def outcome_text_def
      extract_text_from_response_def strip_def is_space_def lit_def)

text \<open>
  C8: the model list of the code is the one of the specification; the requests that
  \<open>kelly_reply\<close> sends are always an initial part of the requests of the first
  \<open>max_retries\<close> pairs of the model-major product of the models and the three
  paraphrases, and all of them when no attempt yields text.
\<close>

theorem attempt_plan_order:
  "model_attempts m = spec_model_list m
   \<and> prefix (invocations (snd (kelly_reply u remote prompt m N)))
       (map (request_of prompt) (take (nat N) (spec_attempt_plan m)))
   \<and> ((\<forall>n req. outcome_text (remote n req) = None) \<longrightarrow>
        invocations (snd (kelly_reply u remote prompt m N))
          = map (request_of prompt) (take (nat N) (spec_attempt_plan m)))"
proof (intro conjI impI)
  show "model_attempts m = spec_model_list m"
    by (simp add: model_attempts_def spec_model_list_def)
  let ?xs = "take (nat N) (attempts m)"
  obtain k where "k \<le> length ?xs"
    "invocations (snd (run_attempts remote prompt ?xs []))
       = invocations [] @ map (request_of prompt) (take k ?xs)"
    using run_attempts_prefix [of ?xs remote prompt "[]"] by blast
  then have "invocations (snd (kelly_reply u remote prompt m N))
       = take k (map (request_of prompt) ?xs)"
    by (simp add: kelly_reply_log take_map)
  then show "prefix (invocations (snd (kelly_reply u remote prompt m N)))
       (map (request_of prompt) (take (nat N) (spec_attempt_plan m)))"
    by (simp add: attempts_spec take_is_prefix)
next
  assume "\<forall>n req. outcome_text (remote n req) = None"
  then have "\<forall>i<length (take (nat N) (attempts m)).
      outcome_text (remote (length (invocations []) + i)
        (request_of prompt (take (nat N) (attempts m) ! i))) = None"
    by simp
  from run_attempts_all_fail [OF this]
  show "invocations (snd (kelly_reply u remote prompt m N))
          = map (request_of prompt) (take (nat N) (spec_attempt_plan m))"
    by (simp add: kelly_reply_log attempts_spec)
qed

text \<open>
  The witness: a preferred model without the marker, which is followed by the fast
  model, and a preferred model with the marker, which is tried alone.
\<close>

theorem attempt_plan_order_witness:
  "(\<forall>n req. outcome_text ((\<lambda>n req. Raises) n req) = None)
   \<and> map req_model (invocations (snd (kelly_reply (\<lambda>s. None) (\<lambda>n req. Raises)
         (lit ''AI'') (lit ''models/gemini-2.5-pro'') 4)))
     = [lit ''models/gemini-2.5-pro'', lit ''models/gemini-2.5-pro'',
        lit ''models/gemini-2.5-pro'', lit ''models/gemini-flash-latest'']
   \<and> map req_model (invocations (snd (kelly_reply (\<lambda>s. None) (\<lambda>n req. Raises)
         (lit ''AI'') (lit ''models/gemini-2.5-flash'') 4)))
     = [lit ''models/gemini-2.5-flash'', lit ''models/gemini-2.5-flash'',
        lit ''models/gemini-2.5-flash'']"
  using
    attempt_plan_order [of "lit ''models/gemini-2.5-pro''" "\<lambda>s. None" "\<lambda>n req. Raises"
      "lit ''AI''" 4]
    attempt_plan_order [of "lit ''models/gemini-2.5-flash''" "\<lambda>s. None" "\<lambda>n req. Raises"
      "lit ''AI''" 4]
  by (simp add: outcome_text_def spec_attempt_plan_def spec_model_list_def spec_paraphrases_def
      request_of_def make_request_def lit_def)

text \<open>
  C10: the text of every result that \<open>kelly_reply\<close> returns is non-empty; and it returns
  a result whenever \<open>html.unescape\<close> returns on the prompt.
\<close>

theorem kelly_reply_text_nonempty:
  "(fst (kelly_reply u remote prompt m N) = Some (t, src) \<longrightarrow> t \<noteq> [])
   \<and> (html_unescape u prompt = Some s \<longrightarrow> fst (kelly_reply u remote prompt m N) \<noteq> None)"
proof (cases "fst (run_attempts remote prompt (take (nat N) (attempts m)) [])")
  case None
  then have "fst (kelly_reply u remote prompt m N)
      = map_option (\<lambda>t. (t, Fallback)) (local_poem_fallback u prompt)"
    by (simp add: kelly_reply_result)
  then show ?thesis
    by (auto simp: poem_returns dest: poem_nonempty)
next
  case (Some res)
  from run_attempts_result [OF this] obtain n req t' where
    "outcome_text (remote n req) = Some t'" "res = (strip t', Gemini)" by blast
  with Some show ?thesis
    by (auto simp: kelly_reply_result dest: outcome_text_strip)
qed

lemmas kelly_eval =
  kelly_reply_def model_attempts_def paraphrases_def try_attempt_def make_request_def
  base_prompt_def KELLY_SYSTEM_PROMPT_def replace_def strip_def is_space_def lit_def Let_def

theorem kelly_reply_text_nonempty_witness:
  "html_unescape (\<lambda>s. None) (lit ''AI'') = Some (lit ''AI'')
   \<and> fst (kelly_reply (\<lambda>s. None) (\<lambda>n req. Raises) (lit ''AI'')
            (lit ''models/gemini-flash-latest'') 1)
       = Some (lit ''In careful lines I study AI,'' @ [10]
               @ lit ''A generator dreams, a critic critiques;'' @ [10]
               @ lit ''Adversarial rhythm tunes model feats,'' @ [10]
               @ lit ''Yet metrics warn where shortcuts meet.'', Fallback)
   \<and> lit ''In careful lines I study AI,'' @ [10]
       @ lit ''A generator dreams, a critic critiques;'' @ [10]
       @ lit ''Adversarial rhythm tunes model feats,'' @ [10]
       @ lit ''Yet metrics warn where shortcuts meet.'' \<noteq> []"
proof -
  have r: "fst (kelly_reply (\<lambda>s. None) (\<lambda>n req. Raises) (lit ''AI'')
            (lit ''models/gemini-flash-latest'') 1)
       = Some (lit ''In careful lines I study AI,'' @ [10]
               @ lit ''A generator dreams, a critic critiques;'' @ [10]
               @ lit ''Adversarial rhythm tunes model feats,'' @ [10]
               @ lit ''Yet metrics warn where shortcuts meet.'', Fallback)"
    by (simp add: kelly_reply_result attempts_def model_attempts_def paraphrases_def
        try_attempt_def poem_eval)
  have h: "html_unescape (\<lambda>s. None) (lit ''AI'') = Some (lit ''AI'')"
    by (simp add: html_unescape_def lit_def)
  from kelly_reply_text_nonempty [of "\<lambda>s. None" "\<lambda>n req. Raises" "lit ''AI''"
      "lit ''models/gemini-flash-latest''" 1 _ Fallback "lit ''AI''"] r h
  show ?thesis by simp
qed

text \<open>
  C9 does not hold of the code for a prompt that occurs in the composed template
  outside its own position. The request text is \<open>base_prompt.replace(prompt, q)\<close>, and
  \<open>replace\<close> rewrites every occurrence: for the prompt \<open>"Kelly"\<close> the second attempt
  sends a text in which the name in the persona preamble and the closing cue
  \<open>"Kelly:"\<close> are replaced by the paraphrase as well, so the preamble is not unchanged.
  The first attempt (identity paraphrase) sends the template as composed.
\<close>

theorem kelly_request_rewrites_preamble:
  "map req_contents (invocations (snd (kelly_reply Some (\<lambda>n req. Raises) (lit ''Kelly'')
       (lit ''models/gemini-flash-latest'') 2)))
   = [[base_prompt (lit ''Kelly'')],
      [lit ''You are Kelly Please explain step by step and include practical suggestions. ''
       @ [8212]
       @ lit '' an analytical poet and scientist. Answer in the form of a short poem.'' @ [10]
       @ lit ''Style: skeptical, analytical, professional. Include one or two practical suggestions or steps.''
       @ [10]
       @ lit ''Keep lines concise and clear; avoid hype and be evidence-minded.'' @ [10, 10]
       @ lit ''User: Kelly Please explain step by step and include practical suggestions.'' @ [10]
       @ lit ''Kelly Please explain step by step and include practical suggestions.:'']]
   \<and> \<not> prefix (strip KELLY_SYSTEM_PROMPT)
         (hd (req_contents (invocations (snd (kelly_reply Some (\<lambda>n req. Raises) (lit ''Kelly'')
            (lit ''models/gemini-flash-latest'') 2)) ! 1)))"
  by (simp add: kelly_eval local_poem_fallback_def split: option.splits)

end
